theory Spec2Isabelle
  imports Complex_Main
begin

section \<open>JavaScript values and the JSON decoder\<close>

text \<open>
  The main process (main/main.js) and the renderer (App.jsx) exchange values that come
  out of \<open>JSON.parse\<close>. Text is modelled as \<open>string\<close>: a sequence of code units below
  U+0100, each \<open>char\<close> one code unit, a chunk being given by the text its
  \<open>toString()\<close> returns. Numbers are kept with their exact decimal value; the rounding
  to binary64 is not modelled.
\<close>

datatype jsval =
    Undefined
  | Null
  | Bool bool
  | Num rat
  | Str string
  | Arr "jsval list"
  | Obj "(string \<times> jsval) list"

text \<open>
  An exception object with its message. \<open>SyntaxError\<close> is what \<open>JSON.parse\<close> throws,
  \<open>TypeError\<close> what a property read on \<open>null\<close>/\<open>undefined\<close> or a call of a
  non-function throws, \<open>Error\<close> what the source builds with \<open>new Error(...)\<close>.
\<close>

datatype js_error = SyntaxError string | TypeError string | Error string

fun message :: "js_error \<Rightarrow> string" where
  "message (SyntaxError m) = m"
| "message (TypeError m) = m"
| "message (Error m) = m"

subsection \<open>Tokens\<close>

datatype token =
    TLBrace | TRBrace | TLBrack | TRBrack | TColon | TComma
  | TStr string | TNum rat | TTrue | TFalse | TNull

definition is_ws :: "char \<Rightarrow> bool" where
  "is_ws c \<longleftrightarrow> c = CHR 0x09 \<or> c = CHR 0x0A \<or> c = CHR 0x0D \<or> c = CHR 0x20"

definition is_digit :: "char \<Rightarrow> bool" where
  "is_digit c \<longleftrightarrow> (48::nat) \<le> of_char c \<and> (of_char c :: nat) \<le> 57"

definition is_numchar :: "char \<Rightarrow> bool" where
  "is_numchar c \<longleftrightarrow> is_digit c \<or> c = CHR ''-'' \<or> c = CHR ''+'' \<or> c = CHR ''.''
     \<or> c = CHR ''e'' \<or> c = CHR ''E''"

definition digits_val :: "string \<Rightarrow> nat" where
  "digits_val ds = foldl (\<lambda>n d. 10 * n + (of_char d - 48)) 0 ds"

definition hex_val :: "char \<Rightarrow> nat option" where
  "hex_val c =
     (let n = (of_char c :: nat) in
      if 48 \<le> n \<and> n \<le> 57 then Some (n - 48)
      else if 65 \<le> n \<and> n \<le> 70 then Some (n - 55)
      else if 97 \<le> n \<and> n \<le> 102 then Some (n - 87)
      else None)"

text \<open>
  The sign, integer part, fraction and exponent of a JSON number, read off a maximal run
  of number characters. A number is followed by white space, a comma, a closing bracket
  or the end of the text, so a run that is not a number as a whole is a syntax error.
\<close>

definition number_value :: "bool \<Rightarrow> string \<Rightarrow> string \<Rightarrow> int \<Rightarrow> rat" where
  "number_value neg ip fp ex =
     (let m = (of_nat (digits_val (ip @ fp)) :: rat);
          x = ex - int (length fp);
          v = (if 0 \<le> x then m * 10 ^ nat x else m / 10 ^ nat (- x))
      in if neg then - v else v)"

definition lex_exponent :: "string \<Rightarrow> int option" where
  "lex_exponent s =
     (case s of
        [] \<Rightarrow> Some 0
      | c # r \<Rightarrow>
          if c = CHR ''e'' \<or> c = CHR ''E'' then
            (let neg = (case r of [] \<Rightarrow> False | d # _ \<Rightarrow> d = CHR ''-'');
                 ds = (case r of [] \<Rightarrow> []
                       | d # r' \<Rightarrow> if d = CHR ''-'' \<or> d = CHR ''+'' then r' else r)
             in if ds \<noteq> [] \<and> list_all is_digit ds
                then Some (if neg then - int (digits_val ds) else int (digits_val ds))
                else None)
          else None)"

definition lex_fraction :: "string \<Rightarrow> (string \<times> string) option" where
  "lex_fraction s =
     (case s of
        [] \<Rightarrow> Some ([], [])
      | c # r \<Rightarrow>
          if c = CHR ''.'' then
            (if takeWhile is_digit r = [] then None
             else Some (takeWhile is_digit r, dropWhile is_digit r))
          else Some ([], s))"

definition parse_number :: "string \<Rightarrow> rat option" where
  "parse_number s =
     (let neg = (case s of [] \<Rightarrow> False | c # _ \<Rightarrow> c = CHR ''-'');
          s1 = (if neg then tl s else s);
          ip = takeWhile is_digit s1
      in if ip = [] \<or> (hd ip = CHR ''0'' \<and> length ip \<noteq> 1) then None
         else (case lex_fraction (dropWhile is_digit s1) of
                 None \<Rightarrow> None
               | Some (fp, s3) \<Rightarrow>
                   (case lex_exponent s3 of
                      None \<Rightarrow> None
                    | Some ex \<Rightarrow> Some (number_value neg ip fp ex))))"

text \<open>
  The characters of a string literal after its opening quote, with the escapes of the
  JSON grammar; a control character below U+0020 is refused. The accumulator holds the
  decoded characters in reverse. An escape \<open>\uXXXX\<close> of a code unit from U+0100 on has
  no \<open>char\<close>: such a text is outside the modelled fragment, and the decoder refuses it.
\<close>

definition unescape :: "char \<Rightarrow> char option" where
  "unescape e =
     (if e = CHR 0x22 then Some (CHR 0x22)
      else if e = CHR 0x5C then Some (CHR 0x5C)
      else if e = CHR ''/'' then Some (CHR ''/'')
      else if e = CHR ''b'' then Some (CHR 0x08)
      else if e = CHR ''f'' then Some (CHR 0x0C)
      else if e = CHR ''n'' then Some (CHR 0x0A)
      else if e = CHR ''r'' then Some (CHR 0x0D)
      else if e = CHR ''t'' then Some (CHR 0x09)
      else None)"

definition unicode_escape :: "string \<Rightarrow> char option" where
  "unicode_escape hs =
     (case map hex_val hs of
        [Some a, Some b, Some c, Some d] \<Rightarrow>
          if a = 0 \<and> b = 0 then Some (char_of (16 * c + d)) else None
      | _ \<Rightarrow> None)"

fun lex_string :: "string \<Rightarrow> string \<Rightarrow> (string \<times> string) option" where
  "lex_string acc [] = None"
| "lex_string acc (c # cs) =
     (if c = CHR 0x22 then Some (rev acc, cs)
      else if c = CHR 0x5C then
        (case cs of
           [] \<Rightarrow> None
         | e # cs' \<Rightarrow>
             if e = CHR ''u'' then
               (case unicode_escape (take 4 cs') of
                  None \<Rightarrow> None
                | Some u \<Rightarrow> lex_string (u # acc) (drop 4 cs'))
             else
               (case unescape e of
                  None \<Rightarrow> None
                | Some u \<Rightarrow> lex_string (u # acc) cs'))
      else if (of_char c :: nat) < 32 then None
      else lex_string (c # acc) cs)"

lemma lex_string_shorter:
  "lex_string acc cs = Some (s, rest) \<Longrightarrow> length rest < Suc (length cs)"
proof (induction acc cs rule: lex_string.induct)
  case (1 acc)
  then show ?case by simp
next
  case (2 acc c cs)
  show ?case
  proof (cases "c = CHR 0x22")
    case True
    with "2.prems" show ?thesis by simp
  next
    case notq: False
    show ?thesis
    proof (cases "c = CHR 0x5C")
      case True
      with notq "2.prems" "2.IH"(1,2) show ?thesis
        by (fastforce split: list.splits if_splits option.splits)
    next
      case False
      with notq "2.prems" "2.IH"(3) show ?thesis
        by (fastforce split: if_splits)
    qed
  qed
qed

function tokenize :: "string \<Rightarrow> token list option" where
  "tokenize [] = Some []"
| "tokenize (c # cs) =
     (if is_ws c then tokenize cs
      else if c = CHR ''{'' then map_option ((#) TLBrace) (tokenize cs)
      else if c = CHR ''}'' then map_option ((#) TRBrace) (tokenize cs)
      else if c = CHR ''['' then map_option ((#) TLBrack) (tokenize cs)
      else if c = CHR '']'' then map_option ((#) TRBrack) (tokenize cs)
      else if c = CHR '':'' then map_option ((#) TColon) (tokenize cs)
      else if c = CHR '','' then map_option ((#) TComma) (tokenize cs)
      else if c = CHR 0x22 then
        (case lex_string [] cs of
           None \<Rightarrow> None
         | Some (s, rest) \<Rightarrow> map_option ((#) (TStr s)) (tokenize rest))
      else if c = CHR ''t'' then
        (if take 3 cs = ''rue'' then map_option ((#) TTrue) (tokenize (drop 3 cs)) else None)
      else if c = CHR ''f'' then
        (if take 4 cs = ''alse'' then map_option ((#) TFalse) (tokenize (drop 4 cs)) else None)
      else if c = CHR ''n'' then
        (if take 3 cs = ''ull'' then map_option ((#) TNull) (tokenize (drop 3 cs)) else None)
      else if c = CHR ''-'' \<or> is_digit c then
        (case parse_number (c # takeWhile is_numchar cs) of
           None \<Rightarrow> None
         | Some r \<Rightarrow> map_option ((#) (TNum r)) (tokenize (dropWhile is_numchar cs)))
      else None)"
  by pat_completeness auto
termination
proof (relation "measure length")
  show "wf (measure length)" by simp
next
  fix c :: char and cs x2 x y
  assume "lex_string [] cs = Some x2" and "(x, y) = x2"
  then show "(y, c # cs) \<in> measure length"
    using lex_string_shorter [of "[]" cs x y] by simp
next
  fix c :: char and cs
  show "(dropWhile is_numchar cs, c # cs) \<in> measure length"
    using length_dropWhile_le [of is_numchar cs] by simp
qed simp_all

subsection \<open>The grammar: a stack of open arrays and objects\<close>

datatype frame = InArr "jsval list" | InObj "(string \<times> jsval) list" string

datatype expect = EValue | EValueOrClose | EKeyOrClose | EKey | EColon | EAfter

datatype pstate = Mid "frame list" expect | Done jsval

fun deliver :: "frame list \<Rightarrow> jsval \<Rightarrow> pstate" where
  "deliver [] v = Done v"
| "deliver (InArr es # st) v = Mid (InArr (es @ [v]) # st) EAfter"
| "deliver (InObj ms k # st) v = Mid (InObj (ms @ [(k, v)]) k # st) EAfter"

fun value_tok :: "frame list \<Rightarrow> token \<Rightarrow> pstate option" where
  "value_tok st (TStr s) = Some (deliver st (Str s))"
| "value_tok st (TNum r) = Some (deliver st (Num r))"
| "value_tok st TTrue = Some (deliver st (Bool True))"
| "value_tok st TFalse = Some (deliver st (Bool False))"
| "value_tok st TNull = Some (deliver st Null)"
| "value_tok st TLBrack = Some (Mid (InArr [] # st) EValueOrClose)"
| "value_tok st TLBrace = Some (Mid (InObj [] [] # st) EKeyOrClose)"
| "value_tok st _ = None"

fun close_arr :: "frame list \<Rightarrow> pstate option" where
  "close_arr (InArr es # st) = Some (deliver st (Arr es))"
| "close_arr _ = None"

fun close_obj :: "frame list \<Rightarrow> pstate option" where
  "close_obj (InObj ms k # st) = Some (deliver st (Obj ms))"
| "close_obj _ = None"

fun key_tok :: "frame list \<Rightarrow> token \<Rightarrow> pstate option" where
  "key_tok (InObj ms k # st) (TStr k') = Some (Mid (InObj ms k' # st) EColon)"
| "key_tok _ _ = None"

fun after_tok :: "frame list \<Rightarrow> token \<Rightarrow> pstate option" where
  "after_tok (InArr es # st) TComma = Some (Mid (InArr es # st) EValue)"
| "after_tok (InObj ms k # st) TComma = Some (Mid (InObj ms k # st) EKey)"
| "after_tok st TRBrack = close_arr st"
| "after_tok st TRBrace = close_obj st"
| "after_tok _ _ = None"

fun pstep :: "pstate \<Rightarrow> token \<Rightarrow> pstate option" where
  "pstep (Done v) t = None"
| "pstep (Mid st EValue) t = value_tok st t"
| "pstep (Mid st EValueOrClose) t = (if t = TRBrack then close_arr st else value_tok st t)"
| "pstep (Mid st EKeyOrClose) t = (if t = TRBrace then close_obj st else key_tok st t)"
| "pstep (Mid st EKey) t = key_tok st t"
| "pstep (Mid st EColon) t = (if t = TColon then Some (Mid st EValue) else None)"
| "pstep (Mid st EAfter) t = after_tok st t"

fun psteps :: "pstate \<Rightarrow> token list \<Rightarrow> pstate option" where
  "psteps p [] = Some p"
| "psteps p (t # ts) = (case pstep p t of None \<Rightarrow> None | Some p' \<Rightarrow> psteps p' ts)"

definition parse_json :: "string \<Rightarrow> jsval option" where
  "parse_json text =
     (case tokenize text of
        None \<Rightarrow> None
      | Some ts \<Rightarrow>
          (case psteps (Mid [] EValue) ts of
             Some (Done v) \<Rightarrow> Some v
           | _ \<Rightarrow> None))"

text \<open>
  \<open>JSON.parse(text)\<close>: the decoded value, or the SyntaxError. The wording of the
  engine's message is not fixed by the source; the model's message names the text.
\<close>

definition JSON_parse :: "string \<Rightarrow> js_error + jsval" where
  "JSON_parse text =
     (case parse_json text of
        Some v \<Rightarrow> Inr v
      | None \<Rightarrow> Inl (SyntaxError (''Unexpected token in JSON: '' @ text)))"

subsection \<open>Property reads and strict equality\<close>

text \<open>
  A property of a decoded object is the last binding of its name in the text (a later
  duplicate overwrites an earlier one).
\<close>

definition own_property :: "(string \<times> jsval) list \<Rightarrow> string \<Rightarrow> jsval option" where
  "own_property ms k = map_of (rev ms) k"

text \<open>
  \<open>v.k\<close> for the names the source reads from decoded values (\<open>event\<close>, \<open>data\<close>,
  \<open>ip\<close>, \<open>status\<close>, \<open>success\<close>, \<open>devices\<close>, \<open>message\<close>): none of them is
  defined on a built-in prototype, so the read gives the own property or \<open>undefined\<close>,
  and throws on \<open>null\<close> and \<open>undefined\<close>.
\<close>

fun get_prop :: "jsval \<Rightarrow> string \<Rightarrow> js_error + jsval" where
  "get_prop Undefined k =
     Inl (TypeError (''Cannot read properties of undefined (reading '' @ k @ '')''))"
| "get_prop Null k =
     Inl (TypeError (''Cannot read properties of null (reading '' @ k @ '')''))"
| "get_prop (Obj ms) k =
     Inr (case own_property ms k of Some v \<Rightarrow> v | None \<Rightarrow> Undefined)"
| "get_prop _ k = Inr Undefined"

text \<open>
  \<open>a === b\<close>. Primitives are compared by value. Arrays and objects are compared by
  reference; the two sides the source compares come out of different messages, each
  decoded on its own, so they are never the same object.
\<close>

fun strict_eq :: "jsval \<Rightarrow> jsval \<Rightarrow> bool" where
  "strict_eq (Arr _) _ = False"
| "strict_eq (Obj _) _ = False"
| "strict_eq a b = (a = b)"

text \<open>\<open>err.toString()\<close> of an exception object.\<close>

fun error_name :: "js_error \<Rightarrow> string" where
  "error_name (SyntaxError m) = ''SyntaxError''"
| "error_name (TypeError m) = ''TypeError''"
| "error_name (Error m) = ''Error''"

definition toString :: "js_error \<Rightarrow> string" where
  "toString e = (if message e = [] then error_name e else error_name e @ '': '' @ message e)"

section \<open>The main process (main/main.js)\<close>

subsection \<open>State\<close>

text \<open>
  A spawned \<open>python.exe\<close>, with the mode it was started in. \<open>running\<close> holds until its
  \<open>close\<close> event; \<open>killed\<close> records a \<open>kill()\<close>. \<open>data\<close> and \<open>errorData\<close> are the two
  variables a \<open>get-charger-data\<close> call declares for its process.
\<close>

datatype mode = Snapshot | Monitor

record proc =
  pmode :: mode
  running :: bool
  killed :: bool
  data :: string
  errorData :: string

text \<open>
  The two module-level variables. \<open>mainWindow\<close> is \<open>True\<close> for a window and \<open>False\<close>
  for \<open>null\<close>; \<open>pythonProcess\<close> is the index of a process in \<open>procs\<close>, the list of all
  processes spawned so far, or \<open>None\<close> for \<open>undefined\<close>/\<open>null\<close>.
\<close>

record main_state =
  mainWindow :: bool
  pythonProcess :: "nat option"
  procs :: "proc list"

definition initial :: main_state where
  "initial = \<lparr>mainWindow = True, pythonProcess = None, procs = []\<rparr>"

datatype outcome = Resolved jsval | Rejected js_error

text \<open>
  What a handler does to the outside: a message to the renderer, a line on the console,
  the settling of the promise of a \<open>get-charger-data\<close> call (named by its process),
  and an exception that no handler catches.
\<close>

datatype effect =
    Send jsval
  | ParseDiagnostic js_error
  | StderrDiagnostic string
  | ExitLog "int option"
  | Settled nat outcome
  | Uncaught js_error

text \<open>
  What the main process receives: the two IPC channels, the stream and exit events of a
  spawned process, the window's \<open>closed\<close> event, and the application's \<open>activate\<close>
  event, on which a new window is created when none is open (on macOS the application
  outlives its window). The exit code is \<open>None\<close> for \<open>null\<close> (the process was ended
  by a signal). \<open>SpawnError\<close> is the \<open>error\<close> event of a process that could not be
  started (the executable is missing, say), with the message of its error: \<open>spawn\<close>
  returns the process object all the same and the runtime emits \<open>error\<close> on it later.
\<close>

datatype event =
    StartMonitoring
  | GetChargerData
  | StdoutData nat string
  | StderrData nat string
  | Close nat "int option"
  | WindowClosed
  | Activate
  | SpawnError nat string

subsection \<open>Handlers\<close>

text \<open>\<open>pythonProcess = spawn(...)\<close>, in either mode.\<close>

definition spawn :: "mode \<Rightarrow> main_state \<Rightarrow> main_state" where
  "spawn m s =
     s\<lparr>pythonProcess := Some (length (procs s)),
       procs := procs s @ [\<lparr>pmode = m, running = True, killed = False,
                            data = [], errorData = []\<rparr>]\<rparr>"

definition get_charger_data :: "main_state \<Rightarrow> main_state" where
  "get_charger_data s = spawn Snapshot s"

definition start_monitoring :: "main_state \<Rightarrow> main_state" where
  "start_monitoring s = (if pythonProcess s \<noteq> None then s else spawn Monitor s)"

function show_nat :: "nat \<Rightarrow> string" where
  "show_nat n =
     (if n < 10 then [char_of (48 + n)]
      else show_nat (n div 10) @ [char_of (48 + n mod 10)])"
  by pat_completeness auto
termination
  by (relation "measure id") auto

definition show_code :: "int option \<Rightarrow> string" where
  "show_code code =
     (case code of
        None \<Rightarrow> ''null''
      | Some n \<Rightarrow> if n < 0 then ''-'' @ show_nat (nat (- n)) else show_nat (nat n))"

text \<open>The \<open>close\<close> listener of a \<open>get-charger-data\<close> call: how its promise settles.\<close>

definition snapshot_close :: "int option \<Rightarrow> string \<Rightarrow> string \<Rightarrow> outcome" where
  "snapshot_close code dat err =
     (if code \<noteq> Some 0 then
        Rejected (Error (''Python script exited with code '' @ show_code code @ '': '' @ err))
      else
        (case JSON_parse dat of
           Inr parsedData \<Rightarrow> Resolved parsedData
         | Inl e \<Rightarrow>
             Rejected (Error (''Failed to parse Python script output: '' @ message e))))"

text \<open>
  The stdout listener of the monitor process. A \<open>null\<close> \<open>mainWindow\<close> makes the send
  throw inside the \<open>try\<close>, which the \<open>catch\<close> logs like a decode failure.
\<close>

definition monitor_stdout :: "main_state \<Rightarrow> string \<Rightarrow> effect list" where
  "monitor_stdout s chunk =
     (case JSON_parse chunk of
        Inl e \<Rightarrow> [ParseDiagnostic e]
      | Inr msg \<Rightarrow>
          if mainWindow s then [Send msg]
          else [ParseDiagnostic
                  (TypeError ''Cannot read properties of null (reading webContents)'')])"

definition update_proc :: "nat \<Rightarrow> (proc \<Rightarrow> proc) \<Rightarrow> main_state \<Rightarrow> main_state" where
  "update_proc p f s = s\<lparr>procs := (procs s)[p := f (procs s ! p)]\<rparr>"

definition live :: "main_state \<Rightarrow> nat \<Rightarrow> bool" where
  "live s p \<longleftrightarrow> p < length (procs s) \<and> running (procs s ! p)"

text \<open>The window's \<open>closed\<close> listener.\<close>

definition window_closed :: "main_state \<Rightarrow> main_state" where
  "window_closed s =
     (case pythonProcess s of
        None \<Rightarrow> s\<lparr>mainWindow := False\<rparr>
      | Some p \<Rightarrow>
          (update_proc p (\<lambda>q. q\<lparr>killed := True\<rparr>) s)
            \<lparr>mainWindow := False, pythonProcess := None\<rparr>)"

text \<open>
  One event. The runtime delivers the events of a process only for one that was spawned
  and has not closed yet; an event for any other index changes nothing. The listeners a
  process has are those of the handler that spawned it: stdout data, stderr data and
  \<open>close\<close>. Neither handler listens for \<open>error\<close>, and an \<open>error\<close> event without a
  listener is thrown as an exception in the main process; no \<open>close\<close> follows it.
\<close>

fun step :: "main_state \<Rightarrow> event \<Rightarrow> main_state \<times> effect list" where
  "step s StartMonitoring = (start_monitoring s, [])"
| "step s GetChargerData = (get_charger_data s, [])"
| "step s (StdoutData p chunk) =
     (if \<not> live s p then (s, [])
      else case pmode (procs s ! p) of
        Snapshot \<Rightarrow> (update_proc p (\<lambda>q. q\<lparr>data := data q @ chunk\<rparr>) s, [])
      | Monitor \<Rightarrow> (s, monitor_stdout s chunk))"
| "step s (StderrData p chunk) =
     (if \<not> live s p then (s, [])
      else case pmode (procs s ! p) of
        Snapshot \<Rightarrow> (update_proc p (\<lambda>q. q\<lparr>errorData := errorData q @ chunk\<rparr>) s, [])
      | Monitor \<Rightarrow> (s, [StderrDiagnostic chunk]))"
| "step s (Close p code) =
     (if \<not> live s p then (s, [])
      else case pmode (procs s ! p) of
        Snapshot \<Rightarrow>
          (update_proc p (\<lambda>q. q\<lparr>running := False\<rparr>) s,
           [Settled p (snapshot_close code (data (procs s ! p)) (errorData (procs s ! p)))])
      | Monitor \<Rightarrow>
          ((update_proc p (\<lambda>q. q\<lparr>running := False\<rparr>) s)\<lparr>pythonProcess := None\<rparr>,
           [ExitLog code]))"
| "step s WindowClosed = (window_closed s, [])"
| "step s Activate = (s\<lparr>mainWindow := True\<rparr>, [])"
| "step s (SpawnError p msg) =
     (if \<not> live s p then (s, [])
      else (update_proc p (\<lambda>q. q\<lparr>running := False\<rparr>) s, [Uncaught (Error msg)]))"

fun run :: "main_state \<Rightarrow> event list \<Rightarrow> main_state \<times> effect list" where
  "run s [] = (s, [])"
| "run s (e # es) =
     (let (s1, out1) = step s e; (s2, out2) = run s1 es in (s2, out1 @ out2))"

text \<open>The streaming subprocesses that exist: spawned in monitor mode and not closed.\<close>

definition monitors :: "main_state \<Rightarrow> proc list" where
  "monitors s = filter (\<lambda>q. pmode q = Monitor \<and> running q) (procs s)"

section \<open>The renderer (App.jsx)\<close>

subsection \<open>State and the real-time update listener\<close>

text \<open>The two \<open>useState\<close> cells of \<open>App\<close>: \<open>chargers\<close> starts as \<open>[]\<close>, \<open>error\<close> as \<open>null\<close>.\<close>

record renderer_state =
  chargers :: jsval
  error :: jsval

definition renderer_initial :: renderer_state where
  "renderer_initial = \<lparr>chargers = Arr [], error = Null\<rparr>"

text \<open>
  \<open>prevChargers.findIndex((c) => c.ip === message.data.ip)\<close>: the first index whose
  element passes, \<open>None\<close> for \<open>-1\<close>. The callback reads \<open>c.ip\<close> first, then
  \<open>message.data.ip\<close>, and runs once per element up to the first match.
\<close>

fun findIndex_ip :: "jsval \<Rightarrow> jsval list \<Rightarrow> js_error + nat option" where
  "findIndex_ip msg [] = Inr None"
| "findIndex_ip msg (c # cs) =
     (case get_prop c ''ip'' of
        Inl e \<Rightarrow> Inl e
      | Inr a \<Rightarrow>
          (case get_prop msg ''data'' of
             Inl e \<Rightarrow> Inl e
           | Inr d \<Rightarrow>
               (case get_prop d ''ip'' of
                  Inl e \<Rightarrow> Inl e
                | Inr b \<Rightarrow>
                    if strict_eq a b then Inr (Some 0)
                    else (case findIndex_ip msg cs of
                            Inl e \<Rightarrow> Inl e
                          | Inr r \<Rightarrow> Inr (map_option Suc r)))))"

text \<open>
  The function given to \<open>setChargers\<close>: from the previous list to the next one. A value
  that is not an array has no \<open>findIndex\<close> to call.
\<close>

definition update_chargers :: "jsval \<Rightarrow> jsval \<Rightarrow> js_error + jsval" where
  "update_chargers msg prevChargers =
     (case prevChargers of
        Arr cs \<Rightarrow>
          (case findIndex_ip msg cs of
             Inl e \<Rightarrow> Inl e
           | Inr existingIndex \<Rightarrow>
               (case get_prop msg ''data'' of
                  Inl e \<Rightarrow> Inl e
                | Inr d \<Rightarrow>
                    (case existingIndex of
                       Some i \<Rightarrow> Inr (Arr (cs[i := d]))
                     | None \<Rightarrow> Inr (Arr (cs @ [d])))))
      | _ \<Rightarrow> Inl (TypeError ''prevChargers.findIndex is not a function''))"

definition handleChargerData :: "jsval \<Rightarrow> renderer_state \<Rightarrow> js_error + renderer_state" where
  "handleChargerData msg st =
     (case get_prop msg ''event'' of
        Inl e \<Rightarrow> Inl e
      | Inr ev \<Rightarrow>
          if strict_eq ev (Str ''charger_status_update'') then
            (case update_chargers msg (chargers st) of
               Inl e \<Rightarrow> Inl e
             | Inr cs \<Rightarrow> Inr (st\<lparr>chargers := cs\<rparr>))
          else Inr st)"

text \<open>The messages of a stream, in order; the first exception ends the run.\<close>

fun handle_all :: "jsval list \<Rightarrow> renderer_state \<Rightarrow> js_error + renderer_state" where
  "handle_all [] st = Inr st"
| "handle_all (m # ms) st =
     (case handleChargerData m st of Inl e \<Rightarrow> Inl e | Inr st' \<Rightarrow> handle_all ms st')"

text \<open>What the main process sent on channel \<open>charger-data\<close>, and what it logged.\<close>

fun sent :: "effect list \<Rightarrow> jsval list" where
  "sent [] = []"
| "sent (Send m # es) = m # sent es"
| "sent (_ # es) = sent es"

fun diagnostics :: "effect list \<Rightarrow> js_error list" where
  "diagnostics [] = []"
| "diagnostics (ParseDiagnostic e # es) = e # diagnostics es"
| "diagnostics (_ # es) = diagnostics es"

subsection \<open>The refresh button\<close>

text \<open>
  \<open>fetchData\<close>, given how the promise of \<open>window.api.getChargerData()\<close> settled. Every
  exception inside its \<open>try\<close> ends in \<open>setError(err.toString())\<close>.
\<close>

definition fetchData :: "outcome \<Rightarrow> renderer_state \<Rightarrow> renderer_state" where
  "fetchData r st =
     (case r of
        Rejected err \<Rightarrow> st\<lparr>error := Str (toString err)\<rparr>
      | Resolved d \<Rightarrow>
          (case get_prop d ''success'' of
             Inl err \<Rightarrow> st\<lparr>error := Str (toString err)\<rparr>
           | Inr ok \<Rightarrow>
               if strict_eq ok (Bool False) then
                 (case get_prop d ''message'' of
                    Inl err \<Rightarrow> st\<lparr>error := Str (toString err)\<rparr>
                  | Inr m \<Rightarrow> st\<lparr>error := m\<rparr>)
               else
                 (case get_prop d ''devices'' of
                    Inl err \<Rightarrow> st\<lparr>error := Str (toString err)\<rparr>
                  | Inr ds \<Rightarrow> st\<lparr>chargers := ds, error := Null\<rparr>)))"

subsection \<open>Status icons\<close>

datatype icon =
  CheckCircleIcon | ClockIcon | BoltIcon | ExclamationCircleIcon | ExclamationTriangleIcon

record icon_info =
  icon :: icon
  color :: string
  variant :: string

definition statusIcons :: "(string \<times> icon_info) list" where
  "statusIcons =
     [(''available'', \<lparr>icon = CheckCircleIcon, color = ''#22c55e'', variant = ''pulse''\<rparr>),
      (''charging'', \<lparr>icon = BoltIcon, color = ''#3b82f6'', variant = ''none''\<rparr>),
      (''preparing'', \<lparr>icon = ClockIcon, color = ''#ec4899'', variant = ''none''\<rparr>),
      (''suspendedev'',
         \<lparr>icon = ExclamationTriangleIcon, color = ''#ef4444'', variant = ''none''\<rparr>),
      (''unknown'', \<lparr>icon = ExclamationCircleIcon, color = ''#f59e0b'', variant = ''none''\<rparr>)]"

text \<open>
  \<open>statusIcons\<close> is an object literal, so \<open>statusIcons[k]\<close> also finds what it inherits
  from \<open>Object.prototype\<close>: functions, and for \<open>__proto__\<close> the prototype object, all of
  them truthy.
\<close>

definition Object_prototype :: "string list" where
  "Object_prototype =
     [''constructor'', ''__defineGetter__'', ''__defineSetter__'', ''hasOwnProperty'',
      ''__lookupGetter__'', ''__lookupSetter__'', ''isPrototypeOf'',
      ''propertyIsEnumerable'', ''toString'', ''valueOf'', ''__proto__'',
      ''toLocaleString'']"

datatype member = Own string icon_info | Inherited string | Absent

definition statusIcons_get :: "string \<Rightarrow> member" where
  "statusIcons_get k =
     (case map_of statusIcons k of
        Some i \<Rightarrow> Own k i
      | None \<Rightarrow> if k \<in> set Object_prototype then Inherited k else Absent)"

text \<open>\<open>toLowerCase()\<close> and \<open>trim()\<close> on code units below U+0100.\<close>

definition lower_char :: "char \<Rightarrow> char" where
  "lower_char c =
     (let n = (of_char c :: nat) in
      if (65 \<le> n \<and> n \<le> 90) \<or> (192 \<le> n \<and> n \<le> 222 \<and> n \<noteq> 215)
      then char_of (n + 32) else c)"

definition toLowerCase :: "string \<Rightarrow> string" where
  "toLowerCase s = map lower_char s"

definition is_js_ws :: "char \<Rightarrow> bool" where
  "is_js_ws c \<longleftrightarrow> (of_char c :: nat) \<in> {9, 10, 11, 12, 13, 32, 160}"

definition trim :: "string \<Rightarrow> string" where
  "trim s = rev (dropWhile is_js_ws (rev (dropWhile is_js_ws s)))"

text \<open>
  \<open>const status = charger.status.toLowerCase().trim();
  const iconInfo = statusIcons[status] || statusIcons['unknown'];\<close>
\<close>

definition icon_for :: "string \<Rightarrow> member" where
  "icon_for status_text =
     (case statusIcons_get (trim (toLowerCase status_text)) of
        Absent \<Rightarrow> statusIcons_get ''unknown''
      | m \<Rightarrow> m)"

definition iconInfo :: "jsval \<Rightarrow> js_error + member" where
  "iconInfo charger =
     (case get_prop charger ''status'' of
        Inl e \<Rightarrow> Inl e
      | Inr (Str s) \<Rightarrow> Inr (icon_for s)
      | Inr _ \<Rightarrow> Inl (TypeError ''charger.status.toLowerCase is not a function''))"

section \<open>Auxiliary definitions for the properties\<close>

text \<open>
  What the guard of \<open>start-monitoring\<close> maintains: at most one streaming subprocess, and
  none while the handle variable is empty.
\<close>

definition singleton_inv :: "main_state \<Rightarrow> bool" where
  "singleton_inv s \<longleftrightarrow>
     length (monitors s) \<le> 1 \<and> (pythonProcess s = None \<longrightarrow> monitors s = [])"

text \<open>All processes spawned in monitor mode so far, running or not.\<close>

definition monitor_procs :: "main_state \<Rightarrow> proc list" where
  "monitor_procs s = filter (\<lambda>q. pmode q = Monitor) (procs s)"

text \<open>
  The stream events of one process, each chunk tagged \<open>True\<close> for stderr and \<open>False\<close>
  for stdout, and the text each stream has delivered in all.
\<close>

fun stream_event :: "nat \<Rightarrow> bool \<times> string \<Rightarrow> event" where
  "stream_event p (False, chunk) = StdoutData p chunk"
| "stream_event p (True, chunk) = StderrData p chunk"

definition stdout_text :: "(bool \<times> string) list \<Rightarrow> string" where
  "stdout_text chunks = concat (map snd (filter (\<lambda>x. \<not> fst x) chunks))"

definition stderr_text :: "(bool \<times> string) list \<Rightarrow> string" where
  "stderr_text chunks = concat (map snd (filter fst chunks))"

text \<open>
  One call among everything else the main process receives: the stdout and stderr text
  that a list of events delivers for process \<open>p\<close>, the events that end the process, and
  the settlements of its promise among the effects. \<open>call_state\<close> says that the call
  of process \<open>p\<close> is under way with the given accumulated texts.
\<close>

fun stdout_for :: "nat \<Rightarrow> event list \<Rightarrow> string" where
  "stdout_for p [] = []"
| "stdout_for p (StdoutData q chunk # es) = (if q = p then chunk else []) @ stdout_for p es"
| "stdout_for p (_ # es) = stdout_for p es"

fun stderr_for :: "nat \<Rightarrow> event list \<Rightarrow> string" where
  "stderr_for p [] = []"
| "stderr_for p (StderrData q chunk # es) = (if q = p then chunk else []) @ stderr_for p es"
| "stderr_for p (_ # es) = stderr_for p es"

fun ends :: "nat \<Rightarrow> event \<Rightarrow> bool" where
  "ends p (Close q code) = (q = p)"
| "ends p (SpawnError q msg) = (q = p)"
| "ends p _ = False"

fun settled_for :: "nat \<Rightarrow> effect list \<Rightarrow> outcome list" where
  "settled_for p [] = []"
| "settled_for p (Settled q r # es) = (if q = p then [r] else []) @ settled_for p es"
| "settled_for p (_ # es) = settled_for p es"

definition call_state :: "main_state \<Rightarrow> nat \<Rightarrow> string \<Rightarrow> string \<Rightarrow> bool" where
  "call_state s p out err \<longleftrightarrow>
     live s p \<and> pmode (procs s ! p) = Snapshot
     \<and> data (procs s ! p) = out \<and> errorData (procs s ! p) = err"

text \<open>
  Following the words of the specification (section 4.2, streaming mode), to compare the
  source with: the complete newline-terminated lines of a text, and what a demultiplexer
  emits that buffers across chunk boundaries and makes one decode attempt per complete
  line.
\<close>

fun complete_lines :: "string \<Rightarrow> string \<Rightarrow> string list" where
  "complete_lines acc [] = []"
| "complete_lines acc (c # cs) =
     (if c = CHR 0x0A then rev acc # complete_lines [] cs else complete_lines (c # acc) cs)"

definition line_buffered :: "main_state \<Rightarrow> string list \<Rightarrow> effect list" where
  "line_buffered s chunks = concat (map (monitor_stdout s) (complete_lines [] (concat chunks)))"

text \<open>A well-formed line of the monitor's output, and the record it carries.\<close>

definition example_update :: string where
  \<open>example_update =
     ''{"event":"charger_status_update","data":{"ip":"10.0.0.5","hostname_info":"bay-1","status":"Charging"}}''\<close>

definition example_record :: jsval where
  "example_record =
     Obj [(''ip'', Str ''10.0.0.5''), (''hostname_info'', Str ''bay-1''),
          (''status'', Str ''Charging'')]"

text \<open>
  A ChargerRecord is a decoded object whose \<open>ip\<close> is a string, and a BridgeEvent is a
  decoded object with \<open>event\<close> \<open>"charger_status_update"\<close> whose \<open>data\<close> is such a
  record (specification, section 3). \<open>bridge_event\<close> gives the key and the record.
\<close>

definition record_ip :: "jsval \<Rightarrow> string option" where
  "record_ip c = (case get_prop c ''ip'' of Inr (Str k) \<Rightarrow> Some k | _ \<Rightarrow> None)"

definition bridge_event :: "jsval \<Rightarrow> (string \<times> jsval) option" where
  "bridge_event msg =
     (if get_prop msg ''event'' = Inr (Str ''charger_status_update'') then
        (case get_prop msg ''data'' of
           Inr d \<Rightarrow> (case record_ip d of Some k \<Rightarrow> Some (k, d) | None \<Rightarrow> None)
         | Inl e \<Rightarrow> None)
      else None)"

definition event_ip :: "jsval \<Rightarrow> string option" where
  "event_ip msg = map_option fst (bridge_event msg)"

text \<open>The position of a key in a list of records: the first index that holds it.\<close>

fun index_of_ip :: "string \<Rightarrow> jsval list \<Rightarrow> nat option" where
  "index_of_ip k [] = None"
| "index_of_ip k (c # cs) =
     (if record_ip c = Some k then Some 0 else map_option Suc (index_of_ip k cs))"

text \<open>
  Following the words of the specification (section 4.5), to compare the source with:
  lookup by \<open>ip\<close>; if present, replace the value at its existing position; if absent,
  append. A Registry (section 3) is a list of records with unique keys.
\<close>

definition upsert :: "string \<Rightarrow> jsval \<Rightarrow> jsval list \<Rightarrow> jsval list" where
  "upsert k d cs = (case index_of_ip k cs of Some i \<Rightarrow> cs[i := d] | None \<Rightarrow> cs @ [d])"

definition registry :: "jsval list \<Rightarrow> bool" where
  "registry cs \<longleftrightarrow> list_all (\<lambda>c. record_ip c \<noteq> None) cs \<and> distinct (map record_ip cs)"

text \<open>Two records, and the update event that carries a record, for the examples.\<close>

definition record_a :: jsval where
  "record_a = Obj [(''ip'', Str ''10.0.0.5''), (''status'', Str ''Available'')]"

definition record_b :: jsval where
  "record_b = Obj [(''ip'', Str ''10.0.0.6''), (''status'', Str ''Preparing'')]"

definition update_of :: "jsval \<Rightarrow> jsval" where
  "update_of d = Obj [(''event'', Str ''charger_status_update''), (''data'', d)]"

section \<open>The one-shot path: how the promise of \<open>get-charger-data\<close> settles\<close>

declare show_nat.simps [simp del]

lemma show_code_1: "show_code (Some 1) = ''1''"
  by code_simp

lemma parse_not_json:
  "JSON_parse ''not json'' = Inl (SyntaxError ''Unexpected token in JSON: not json'')"
  by code_simp

lemma parse_null: "JSON_parse ''null'' = Inr Null"
  by code_simp

lemma parse_42: "JSON_parse ''42'' = Inr (Num 42)"
  by code_simp

lemma parse_empty_object: "JSON_parse ''{}'' = Inr (Obj [])"
  by code_simp

lemma nth_update_proc:
  "p < length (procs s) \<Longrightarrow> procs (update_proc p f s) ! p = f (procs s ! p)"
  by (simp add: update_proc_def)

text \<open>
  A whole call, seen from its process: the chunks of the two streams in any
  interleaving, then \<open>close\<close>. The promise settles once, on the two accumulated texts.
\<close>

lemma snapshot_session:
  "live s p \<Longrightarrow> pmode (procs s ! p) = Snapshot \<Longrightarrow>
     snd (run s (map (stream_event p) chunks @ [Close p code])) =
       [Settled p (snapshot_close code
          (data (procs s ! p) @ stdout_text chunks)
          (errorData (procs s ! p) @ stderr_text chunks))]"
proof (induction chunks arbitrary: s)
  case Nil
  then show ?case by (simp add: stdout_text_def stderr_text_def)
next
  case (Cons x chunks)
  obtain e c where x: "x = (e, c)" by (cases x)
  from Cons.prems have lt: "p < length (procs s)" by (simp add: live_def)
  show ?case
  proof (cases e)
    case True
    let ?s = "update_proc p (\<lambda>q. q\<lparr>errorData := errorData q @ c\<rparr>) s"
    from Cons.prems lt have l: "live ?s p" and m: "pmode (procs ?s ! p) = Snapshot"
      by (simp_all add: live_def update_proc_def)
    from Cons.IH [OF l m] Cons.prems True x lt show ?thesis
      by (simp add: nth_update_proc stdout_text_def stderr_text_def)
  next
    case False
    let ?s = "update_proc p (\<lambda>q. q\<lparr>data := data q @ c\<rparr>) s"
    from Cons.prems lt have l: "live ?s p" and m: "pmode (procs ?s ! p) = Snapshot"
      by (simp_all add: live_def update_proc_def)
    from Cons.IH [OF l m] Cons.prems False x lt show ?thesis
      by (simp add: nth_update_proc stdout_text_def stderr_text_def)
  qed
qed

lemma fresh_snapshot:
  "live (get_charger_data s) (length (procs s))
   \<and> procs (get_charger_data s) ! length (procs s) =
       \<lparr>pmode = Snapshot, running = True, killed = False, data = [], errorData = []\<rparr>"
  by (simp add: live_def get_charger_data_def spawn_def)

lemma get_charger_data_call:
  "snd (run (get_charger_data s)
         (map (stream_event (length (procs s))) chunks @ [Close (length (procs s)) code])) =
     [Settled (length (procs s))
        (snapshot_close code (stdout_text chunks) (stderr_text chunks))]"
  using snapshot_session [of "get_charger_data s" "length (procs s)" chunks code]
    fresh_snapshot [of s]
  by simp

lemma procs_initial: "length (procs initial) = 0"
  by (simp add: initial_def)

text \<open>
  C4, as amended. In whole-output mode, exit code 0 with a stdout that does not decode
  rejects the promise with an error whose message carries the message of the decode
  error; it is never a resolved value. Every failure the \<open>close\<close> listener sees (a
  non-zero exit code, or an undecodable output) settles the promise as rejected. For a
  whole call, whatever the chunks of its two streams, its \<open>close\<close> event settles its
  promise, once, on the accumulated texts; and the caller \<open>fetchData\<close> turns a rejection
  into its \<open>error\<close> state instead of letting it escape.
\<close>

theorem malformed_output_is_rejected:
  "(JSON_parse dat = Inl e \<longrightarrow>
      snapshot_close (Some 0) dat err =
        Rejected (Error (''Failed to parse Python script output: '' @ message e)))
   \<and> (code \<noteq> Some 0 \<or> JSON_parse dat = Inl e \<longrightarrow>
        (\<exists>m. snapshot_close code dat err = Rejected (Error m))
        \<and> (\<forall>v. snapshot_close code dat err \<noteq> Resolved v))
   \<and> snd (run (get_charger_data s)
          (map (stream_event (length (procs s))) chunks @ [Close (length (procs s)) code])) =
       [Settled (length (procs s))
          (snapshot_close code (stdout_text chunks) (stderr_text chunks))]
   \<and> fetchData (Rejected x) st = st\<lparr>error := Str (toString x)\<rparr>"
  using get_charger_data_call [of s chunks code]
  by (auto simp: snapshot_close_def fetchData_def)

theorem malformed_output_is_rejected_witness:
  "snapshot_close (Some 0) ''not json'' ''warn'' =
     Rejected (Error ''Failed to parse Python script output: Unexpected token in JSON: not json'')
   \<and> snd (run (get_charger_data initial)
          [StdoutData 0 ''not'', StderrData 0 ''warn'', StdoutData 0 '' json'',
           Close 0 (Some 0)]) =
       [Settled 0 (Rejected (Error
          ''Failed to parse Python script output: Unexpected token in JSON: not json''))]
   \<and> fetchData (Rejected (Error ''failed'')) renderer_initial =
       renderer_initial\<lparr>error := Str (toString (Error ''failed''))\<rparr>"
  using malformed_output_is_rejected
    [of "''not json''" "SyntaxError ''Unexpected token in JSON: not json''" "''warn''"
        "Some 0" initial "[(False, ''not''), (True, ''warn''), (False, '' json'')]"
        "Error ''failed''" renderer_initial]
    parse_not_json
  by (simp add: procs_initial stdout_text_def stderr_text_def)

text \<open>
  The claim as stated, for every failure of the one-shot path, fails for a subprocess
  that cannot be started: its \<open>error\<close> event has no listener, so the failure is thrown
  in the main process, uncaught, and the promise of the call is never settled.
\<close>

theorem malformed_output_is_rejected_counterexample:
  "step (get_charger_data initial) (SpawnError 0 ''spawn python.exe ENOENT'') =
     (\<lparr>mainWindow = True, pythonProcess = Some 0,
       procs = [\<lparr>pmode = Snapshot, running = False, killed = False,
                 data = [], errorData = []\<rparr>]\<rparr>,
      [Uncaught (Error ''spawn python.exe ENOENT'')])"
  by code_simp

text \<open>
  C5. In whole-output mode a non-zero exit code (also \<open>null\<close>, the exit by a signal)
  rejects the promise whatever stdout held: the message ends with the accumulated stderr
  text, and the accumulated stdout plays no part in the result. So it is for a whole
  call, whatever the chunks of its two streams.
\<close>

theorem exit_code_precedence:
  "code \<noteq> Some 0 \<Longrightarrow>
     snapshot_close code dat err =
       Rejected (Error (''Python script exited with code '' @ show_code code @ '': '' @ err))
     \<and> snapshot_close code dat err = snapshot_close code dat' err
     \<and> snd (run (get_charger_data s)
          (map (stream_event (length (procs s))) chunks @ [Close (length (procs s)) code])) =
         [Settled (length (procs s))
            (Rejected (Error (''Python script exited with code '' @ show_code code @ '': '' @
               stderr_text chunks)))]"
  using get_charger_data_call [of s chunks code]
  by (simp add: snapshot_close_def)

theorem exit_code_precedence_witness:
  "Some 1 \<noteq> Some (0::int)
   \<and> snapshot_close (Some 1) ''[1, 2]'' ''boom'' =
       Rejected (Error ''Python script exited with code 1: boom'')
   \<and> snapshot_close (Some 1) ''[1, 2]'' ''boom'' = snapshot_close (Some 1) ''not json'' ''boom''
   \<and> snd (run (get_charger_data initial)
          [StdoutData 0 ''[1, '', StderrData 0 ''bo'', StdoutData 0 ''2]'', StderrData 0 ''om'',
           Close 0 (Some 1)]) =
       [Settled 0 (Rejected (Error ''Python script exited with code 1: boom''))]"
proof -
  have c: "Some 1 \<noteq> Some (0::int)" by simp
  note t = exit_code_precedence
    [OF c, of "''[1, 2]''" "''boom''" "''not json''" initial
       "[(False, ''[1, ''), (True, ''bo''), (False, ''2]''), (True, ''om'')]"]
  have a: "snapshot_close (Some 1) ''[1, 2]'' ''boom'' =
      Rejected (Error ''Python script exited with code 1: boom'')"
    using t [THEN conjunct1] by (simp add: show_code_1)
  have b: "snapshot_close (Some 1) ''[1, 2]'' ''boom'' =
      snapshot_close (Some 1) ''not json'' ''boom''"
    using t [THEN conjunct2, THEN conjunct1] .
  have d: "snd (run (get_charger_data initial)
          [StdoutData 0 ''[1, '', StderrData 0 ''bo'', StdoutData 0 ''2]'', StderrData 0 ''om'',
           Close 0 (Some 1)]) =
       [Settled 0 (Rejected (Error ''Python script exited with code 1: boom''))]"
    using t [THEN conjunct2, THEN conjunct2]
    by (simp add: procs_initial stderr_text_def show_code_1)
  show ?thesis
    by (rule conjI [OF c conjI [OF a conjI [OF b d]]])
qed

text \<open>
  C10. The one-shot path validates nothing beyond the syntax: with exit code 0, whatever
  value the accumulated stdout text decodes to is the value the promise of the call
  resolves with, as it is. So \<open>null\<close>, a bare number and an object without \<open>success\<close>
  and \<open>devices\<close> all resolve.
\<close>

theorem snapshot_resolves_unvalidated:
  "(JSON_parse dat = Inr v \<longrightarrow> snapshot_close (Some 0) dat err = Resolved v)
   \<and> (JSON_parse (stdout_text chunks) = Inr v \<longrightarrow>
        snd (run (get_charger_data s)
          (map (stream_event (length (procs s))) chunks @
             [Close (length (procs s)) (Some 0)])) =
        [Settled (length (procs s)) (Resolved v)])"
  using get_charger_data_call [of s chunks "Some 0"]
  by (simp add: snapshot_close_def)

theorem snapshot_resolves_unvalidated_witness:
  "snapshot_close (Some 0) ''null'' [] = Resolved Null
   \<and> snapshot_close (Some 0) ''42'' [] = Resolved (Num 42)
   \<and> snapshot_close (Some 0) ''{}'' [] = Resolved (Obj [])
   \<and> snd (run (get_charger_data initial)
          [StdoutData 0 ''nu'', StderrData 0 ''warn'', StdoutData 0 ''ll'', Close 0 (Some 0)]) =
       [Settled 0 (Resolved Null)]"
  using snapshot_resolves_unvalidated
      [of "''null''" Null "[]" "[(False, ''nu''), (True, ''warn''), (False, ''ll'')]" initial]
    snapshot_resolves_unvalidated [of "''42''" "Num 42" "[]" "[]" initial]
    snapshot_resolves_unvalidated [of "''{}''" "Obj []" "[]" "[]" initial]
    parse_null parse_42 parse_empty_object
  by (simp add: procs_initial stdout_text_def)

section \<open>The process handle and the streaming subprocess\<close>

lemma filter_update_count:
  "i < length xs \<Longrightarrow>
     length (filter P (xs[i := y])) + (if P (xs ! i) then 1 else 0) =
     length (filter P xs) + (if P y then 1 else 0)"
proof (induction xs arbitrary: i)
  case Nil
  then show ?case by simp
next
  case (Cons x xs)
  then show ?case by (cases i) auto
qed

lemma monitors_spawn:
  "monitors (spawn m s) =
     monitors s @ (if m = Monitor
                   then [\<lparr>pmode = m, running = True, killed = False, data = [], errorData = []\<rparr>]
                   else [])"
  by (simp add: monitors_def spawn_def)

lemma pythonProcess_spawn [simp]: "pythonProcess (spawn m s) = Some (length (procs s))"
  by (simp add: spawn_def)

lemma pythonProcess_update_proc [simp]: "pythonProcess (update_proc p f s) = pythonProcess s"
  by (simp add: update_proc_def)

lemma monitors_update_same:
  assumes "p < length (procs s)"
    and "pmode (f (procs s ! p)) = pmode (procs s ! p)"
    and "running (f (procs s ! p)) = running (procs s ! p)"
  shows "length (monitors (update_proc p f s)) = length (monitors s)"
  using filter_update_count
    [OF assms(1), of "\<lambda>q. pmode q = Monitor \<and> running q" "f (procs s ! p)"] assms(2,3)
  by (simp add: monitors_def update_proc_def)

lemma monitors_update_stop:
  assumes "p < length (procs s)" and "running (procs s ! p)"
    and "pmode (procs s ! p) = Monitor"
  shows "Suc (length (monitors (update_proc p (\<lambda>q. q\<lparr>running := False\<rparr>) s))) =
           length (monitors s)"
  using filter_update_count
    [OF assms(1), of "\<lambda>q. pmode q = Monitor \<and> running q" "(procs s ! p)\<lparr>running := False\<rparr>"]
    assms(2,3)
  by (simp add: monitors_def update_proc_def)

lemma monitors_update_le:
  assumes "p < length (procs s)"
  shows "length (monitors (update_proc p (\<lambda>q. q\<lparr>running := False\<rparr>) s)) \<le>
           length (monitors s)"
  using filter_update_count
    [OF assms, of "\<lambda>q. pmode q = Monitor \<and> running q" "(procs s ! p)\<lparr>running := False\<rparr>"]
  by (simp add: monitors_def update_proc_def split: if_splits)

lemma singleton_inv_step:
  assumes "singleton_inv s" and "e \<noteq> WindowClosed"
  shows "singleton_inv (fst (step s e))"
proof (cases e)
  case StartMonitoring
  with assms show ?thesis
    by (auto simp: singleton_inv_def start_monitoring_def monitors_spawn)
next
  case GetChargerData
  with assms show ?thesis
    by (auto simp: singleton_inv_def get_charger_data_def monitors_spawn)
next
  case (StdoutData p chunk)
  show ?thesis
  proof (cases "live s p \<and> pmode (procs s ! p) = Snapshot")
    case True
    then have "length (monitors (update_proc p (\<lambda>q. q\<lparr>data := data q @ chunk\<rparr>) s)) =
        length (monitors s)"
      by (intro monitors_update_same) (simp_all add: live_def)
    with True assms StdoutData show ?thesis
      by (simp add: singleton_inv_def flip: length_0_conv)
  next
    case False
    with assms StdoutData show ?thesis
      by (cases "pmode (procs s ! p)") (auto simp: singleton_inv_def)
  qed
next
  case (StderrData p chunk)
  show ?thesis
  proof (cases "live s p \<and> pmode (procs s ! p) = Snapshot")
    case True
    then have "length (monitors (update_proc p (\<lambda>q. q\<lparr>errorData := errorData q @ chunk\<rparr>) s)) =
        length (monitors s)"
      by (intro monitors_update_same) (simp_all add: live_def)
    with True assms StderrData show ?thesis
      by (simp add: singleton_inv_def flip: length_0_conv)
  next
    case False
    with assms StderrData show ?thesis
      by (cases "pmode (procs s ! p)") (auto simp: singleton_inv_def)
  qed
next
  case (Close p code)
  show ?thesis
  proof (cases "live s p")
    case False
    with assms Close show ?thesis by simp
  next
    case True
    show ?thesis
    proof (cases "pmode (procs s ! p)")
      case Snapshot
      with True have "length (monitors (update_proc p (\<lambda>q. q\<lparr>running := False\<rparr>) s)) =
          length (monitors s)"
        using filter_update_count
          [of p "procs s" "\<lambda>q. pmode q = Monitor \<and> running q"
              "(procs s ! p)\<lparr>running := False\<rparr>"]
        by (simp add: monitors_def update_proc_def live_def)
      with True Snapshot assms Close show ?thesis
        by (simp add: singleton_inv_def flip: length_0_conv)
    next
      case Monitor
      with True have
        "Suc (length (monitors (update_proc p (\<lambda>q. q\<lparr>running := False\<rparr>) s))) =
           length (monitors s)"
        by (intro monitors_update_stop) (simp_all add: live_def)
      with assms(1) have
        "length (monitors (update_proc p (\<lambda>q. q\<lparr>running := False\<rparr>) s)) = 0"
        unfolding singleton_inv_def by linarith
      then have "monitors (update_proc p (\<lambda>q. q\<lparr>running := False\<rparr>) s) = []"
        by simp
      moreover have
        "monitors ((update_proc p (\<lambda>q. q\<lparr>running := False\<rparr>) s)\<lparr>pythonProcess := None\<rparr>) =
           monitors (update_proc p (\<lambda>q. q\<lparr>running := False\<rparr>) s)"
        by (simp add: monitors_def)
      ultimately show ?thesis using True Monitor Close
        by (simp add: singleton_inv_def)
    qed
  qed
next
  case WindowClosed
  with assms show ?thesis by simp
next
  case Activate
  with assms show ?thesis
    by (simp add: singleton_inv_def monitors_def)
next
  case (SpawnError p msg)
  show ?thesis
  proof (cases "live s p")
    case False
    with assms SpawnError show ?thesis by simp
  next
    case True
    then have "length (monitors (update_proc p (\<lambda>q. q\<lparr>running := False\<rparr>) s)) \<le>
        length (monitors s)"
      by (intro monitors_update_le) (simp add: live_def)
    with True assms SpawnError show ?thesis
      by (auto simp: singleton_inv_def)
  qed
qed

lemma singleton_inv_run:
  "singleton_inv s \<Longrightarrow> WindowClosed \<notin> set evs \<Longrightarrow> singleton_inv (fst (run s evs))"
proof (induction evs arbitrary: s)
  case Nil
  then show ?case by simp
next
  case (Cons e evs)
  from Cons.prems have "singleton_inv (fst (step s e))"
    by (intro singleton_inv_step) auto
  with Cons.IH [of "fst (step s e)"] Cons.prems(2) show ?case
    by (simp add: case_prod_beta)
qed

lemma singleton_inv_initial: "singleton_inv initial"
  by (simp add: singleton_inv_def initial_def monitors_def)

lemma settled_for_append [simp]:
  "settled_for p (xs @ ys) = settled_for p xs @ settled_for p ys"
  by (induction p xs rule: settled_for.induct) simp_all

lemma settled_for_monitor_stdout [simp]: "settled_for p (monitor_stdout s c) = []"
  by (simp add: monitor_stdout_def split: sum.splits)

lemma procs_update_nth:
  "procs (update_proc q f s) ! p =
     (if p = q \<and> q < length (procs s) then f (procs s ! p) else procs s ! p)"
  by (cases "q < length (procs s)")
    (simp_all add: update_proc_def nth_list_update list_update_beyond not_less)

lemma length_procs_update [simp]: "length (procs (update_proc q f s)) = length (procs s)"
  by (simp add: update_proc_def)

lemma procs_spawn_nth:
  "p < length (procs s) \<Longrightarrow> procs (spawn m s) ! p = procs s ! p"
  by (simp add: spawn_def nth_append)

lemma length_procs_spawn [simp]: "length (procs (spawn m s)) = Suc (length (procs s))"
  by (simp add: spawn_def)

lemma call_state_step:
  assumes "call_state s p out err" and "\<not> ends p e"
  shows "call_state (fst (step s e)) p (out @ stdout_for p [e]) (err @ stderr_for p [e])
     \<and> settled_for p (snd (step s e)) = []"
proof (cases e)
  case StartMonitoring
  with assms show ?thesis
    by (auto simp: call_state_def live_def start_monitoring_def procs_spawn_nth)
next
  case GetChargerData
  with assms show ?thesis
    by (auto simp: call_state_def live_def get_charger_data_def procs_spawn_nth)
next
  case (StdoutData q c)
  with assms show ?thesis
    by (cases "pmode (procs s ! q)") (auto simp: call_state_def live_def procs_update_nth)
next
  case (StderrData q c)
  with assms show ?thesis
    by (cases "pmode (procs s ! q)") (auto simp: call_state_def live_def procs_update_nth)
next
  case (Close q code)
  with assms show ?thesis
    by (cases "pmode (procs s ! q)") (auto simp: call_state_def live_def procs_update_nth)
next
  case WindowClosed
  with assms show ?thesis
    by (auto simp: call_state_def live_def window_closed_def procs_update_nth split: option.splits)
next
  case Activate
  with assms show ?thesis
    by (auto simp: call_state_def live_def)
next
  case (SpawnError q msg)
  with assms show ?thesis
    by (auto simp: call_state_def live_def procs_update_nth)
qed

lemma stdout_for_Cons: "stdout_for p (e # es) = stdout_for p [e] @ stdout_for p es"
  by (cases e) simp_all

lemma stderr_for_Cons: "stderr_for p (e # es) = stderr_for p [e] @ stderr_for p es"
  by (cases e) simp_all

lemma call_state_run:
  "call_state s p out err \<Longrightarrow> list_all (\<lambda>e. \<not> ends p e) evs \<Longrightarrow>
     call_state (fst (run s evs)) p (out @ stdout_for p evs) (err @ stderr_for p evs)
     \<and> settled_for p (snd (run s evs)) = []"
proof (induction evs arbitrary: s out err)
  case Nil
  then show ?case by simp
next
  case (Cons e evs)
  from Cons.prems have st:
    "call_state (fst (step s e)) p (out @ stdout_for p [e]) (err @ stderr_for p [e])"
    "settled_for p (snd (step s e)) = []"
    using call_state_step [of s p out err e] by simp_all
  from Cons.prems have "list_all (\<lambda>e. \<not> ends p e) evs" by simp
  from Cons.IH [OF st(1) this] st(2) show ?case
    by (simp add: case_prod_beta stdout_for_Cons [of p e evs] stderr_for_Cons [of p e evs])
qed

lemma run_append:
  "run s (xs @ ys) = (fst (run (fst (run s xs)) ys), snd (run s xs) @ snd (run (fst (run s xs)) ys))"
  by (induction xs arbitrary: s) (simp_all add: case_prod_beta)

lemma call_settles:
  assumes "call_state s p out err" and "list_all (\<lambda>e. \<not> ends p e) evs"
  shows "settled_for p (snd (run s (evs @ [Close p code]))) =
     [snapshot_close code (out @ stdout_for p evs) (err @ stderr_for p evs)]"
proof -
  from call_state_run [OF assms]
  have c: "call_state (fst (run s evs)) p (out @ stdout_for p evs) (err @ stderr_for p evs)"
    and n: "settled_for p (snd (run s evs)) = []" by simp_all
  from c show ?thesis
    by (simp add: run_append n call_state_def)
qed

lemma marker_after_start: "pythonProcess (start_monitoring initial) = Some 0"
  by (simp add: start_monitoring_def initial_def spawn_def)

lemma live_after_start: "live (start_monitoring initial) 0"
  by (simp add: live_def start_monitoring_def initial_def spawn_def)

lemma pmode_after_start: "pmode (procs (start_monitoring initial) ! 0) = Monitor"
  by (simp add: start_monitoring_def initial_def spawn_def)

text \<open>
  While the handle variable is set a start request changes nothing, and as long as the
  window's \<open>closed\<close> listener has not run at most one streaming subprocess exists,
  whatever the order of start requests, snapshot requests and process events.
\<close>

lemma singleton_while_window_open:
  "(pythonProcess s \<noteq> None \<longrightarrow> start_monitoring s = s \<and> step s StartMonitoring = (s, []))
   \<and> (WindowClosed \<notin> set evs \<longrightarrow> length (monitors (fst (run initial evs))) \<le> 1)"
  using singleton_inv_run [OF singleton_inv_initial, of evs]
  by (auto simp: start_monitoring_def singleton_inv_def)

text \<open>
  The application itself emits \<open>start-monitoring\<close> once, when it is ready. After that
  single start no event spawns another process in monitor mode, so at most one streaming
  subprocess exists, window events included.
\<close>

lemma monitor_procs_update:
  assumes "\<And>q. pmode (f q) = pmode q"
  shows "length (monitor_procs (update_proc p f s)) = length (monitor_procs s)"
proof (cases "p < length (procs s)")
  case True
  from filter_update_count [OF True, of "\<lambda>q. pmode q = Monitor" "f (procs s ! p)"] assms
  show ?thesis by (simp add: monitor_procs_def update_proc_def)
next
  case False
  then show ?thesis by (simp add: monitor_procs_def update_proc_def list_update_beyond not_less)
qed

lemma monitor_procs_step:
  "e \<noteq> StartMonitoring \<Longrightarrow>
     length (monitor_procs (fst (step s e))) = length (monitor_procs s)"
proof (cases e)
  case GetChargerData
  then show ?thesis by (simp add: monitor_procs_def get_charger_data_def spawn_def)
next
  case (StdoutData p c)
  then show ?thesis
    by (cases "pmode (procs s ! p)") (simp_all add: monitor_procs_update)
next
  case (StderrData p c)
  then show ?thesis
    by (cases "pmode (procs s ! p)") (simp_all add: monitor_procs_update)
next
  case (Close p code)
  have "monitor_procs ((update_proc p (\<lambda>q. q\<lparr>running := False\<rparr>) s)\<lparr>pythonProcess := None\<rparr>) =
      monitor_procs (update_proc p (\<lambda>q. q\<lparr>running := False\<rparr>) s)"
    by (simp add: monitor_procs_def)
  with Close show ?thesis
    by (cases "pmode (procs s ! p)") (simp_all add: monitor_procs_update)
next
  case WindowClosed
  have "\<And>t. monitor_procs (t\<lparr>mainWindow := False, pythonProcess := None\<rparr>) = monitor_procs t"
    "monitor_procs (s\<lparr>mainWindow := False\<rparr>) = monitor_procs s"
    by (simp_all add: monitor_procs_def)
  with WindowClosed show ?thesis
    by (simp add: window_closed_def monitor_procs_update split: option.splits)
next
  case Activate
  then show ?thesis by (simp add: monitor_procs_def)
next
  case (SpawnError p msg)
  then show ?thesis by (simp add: monitor_procs_update)
qed simp

lemma monitor_procs_run:
  "StartMonitoring \<notin> set evs \<Longrightarrow>
     length (monitor_procs (fst (run s evs))) = length (monitor_procs s)"
proof (induction evs arbitrary: s)
  case Nil
  then show ?case by simp
next
  case (Cons e evs)
  from Cons.prems have "e \<noteq> StartMonitoring" by auto
  from monitor_procs_step [OF this, of s] Cons show ?case
    by (simp add: case_prod_beta)
qed

lemma monitors_le_monitor_procs: "length (monitors s) \<le> length (monitor_procs s)"
proof -
  have "monitors s = filter running (monitor_procs s)"
    by (simp add: monitors_def monitor_procs_def conj_commute)
  then show ?thesis by simp
qed

lemma single_start_singleton:
  "StartMonitoring \<notin> set evs \<Longrightarrow>
     length (monitors (fst (run initial (StartMonitoring # evs)))) \<le> 1"
proof -
  assume a: "StartMonitoring \<notin> set evs"
  have "length (monitor_procs (start_monitoring initial)) = 1"
    by (simp add: monitor_procs_def start_monitoring_def initial_def spawn_def)
  with monitor_procs_run [OF a, of "start_monitoring initial"]
    monitors_le_monitor_procs [of "fst (run (start_monitoring initial) evs)"]
  show ?thesis by (simp add: case_prod_beta)
qed

text \<open>
  C8. The guard of \<open>start-monitoring\<close> makes a start request a no-op while the handle
  variable is set. The variable does not tell whether a streaming subprocess runs,
  though. After a start request, a snapshot request and the window's \<open>closed\<close> event,
  the streaming subprocess still runs, not killed, and the variable is empty: a further
  start request, made while a streaming session is active, spawns a second streaming
  subprocess, and two exist.
\<close>

theorem start_monitoring_second_monitor:
  "step (start_monitoring initial) StartMonitoring = (start_monitoring initial, [])
   \<and> monitors (fst (run initial [StartMonitoring, GetChargerData, WindowClosed])) =
     [\<lparr>pmode = Monitor, running = True, killed = False, data = [], errorData = []\<rparr>]
   \<and> pythonProcess (fst (run initial [StartMonitoring, GetChargerData, WindowClosed])) = None
   \<and> length (monitors (fst (run initial
        [StartMonitoring, GetChargerData, WindowClosed, StartMonitoring]))) = 2"
  by code_simp

text \<open>
  C1, as amended. A snapshot request spawns a process of its own, with stdout and stderr
  accumulators of its own, and leaves the window and the processes spawned before as
  they are. Whatever the main process receives between the request and the \<open>close\<close> of
  its process (further snapshot requests, start requests, events of other processes,
  the window's events), the promise of the call settles exactly once, at that \<open>close\<close>,
  on the exit code and the text of its own two streams. But the request stores its
  process in the module-level handle variable, the one the streaming path uses as its
  marker.
\<close>

theorem get_charger_data_frame:
  "mainWindow (get_charger_data s) = mainWindow s
   \<and> procs (get_charger_data s) =
       procs s @ [\<lparr>pmode = Snapshot, running = True, killed = False, data = [], errorData = []\<rparr>]
   \<and> pythonProcess (get_charger_data s) = Some (length (procs s))
   \<and> (list_all (\<lambda>e. \<not> ends (length (procs s)) e) evs \<longrightarrow>
        settled_for (length (procs s))
          (snd (run (get_charger_data s) (evs @ [Close (length (procs s)) code]))) =
        [snapshot_close code (stdout_for (length (procs s)) evs)
           (stderr_for (length (procs s)) evs)])"
proof -
  have "call_state (get_charger_data s) (length (procs s)) [] []"
    using fresh_snapshot [of s] by (simp add: call_state_def)
  from call_settles [OF this, of evs code] show ?thesis
    by (simp add: get_charger_data_def spawn_def)
qed

lemma parse_empty_array: "JSON_parse ''[]'' = Inr (Arr [])"
  by code_simp

theorem get_charger_data_frame_witness:
  "list_all (\<lambda>e. \<not> ends 0 e)
     [GetChargerData, StdoutData 1 ''{'', StdoutData 0 ''[]'', StartMonitoring,
      Close 1 (Some 0), WindowClosed]
   \<and> pythonProcess (get_charger_data initial) = Some 0
   \<and> settled_for 0 (snd (run (get_charger_data initial)
        ([GetChargerData, StdoutData 1 ''{'', StdoutData 0 ''[]'', StartMonitoring,
          Close 1 (Some 0), WindowClosed] @ [Close 0 (Some 0)]))) =
       [Resolved (Arr [])]"
proof -
  let ?evs = "[GetChargerData, StdoutData 1 ''{'', StdoutData 0 ''[]'', StartMonitoring,
      Close 1 (Some 0), WindowClosed]"
  have a: "list_all (\<lambda>e. \<not> ends 0 e) ?evs" by simp
  have r: "snapshot_close (Some 0) ''[]'' [] = Resolved (Arr [])"
    by (simp add: snapshot_close_def parse_empty_array)
  from get_charger_data_frame [of initial ?evs "Some 0"] a r show ?thesis
    by (simp add: procs_initial)
qed

text \<open>
  The claim as stated fails: after a snapshot request the marker of the running
  streaming session is the snapshot's process.
\<close>

theorem get_charger_data_frame_counterexample:
  "pythonProcess (start_monitoring initial) = Some 0
   \<and> monitors (get_charger_data (start_monitoring initial)) =
       monitors (start_monitoring initial)
   \<and> pythonProcess (get_charger_data (start_monitoring initial)) = Some 1"
  by code_simp

section \<open>Streaming mode: the stdout listener of the monitor process\<close>

lemma run_monitor_chunks:
  "live s p \<Longrightarrow> pmode (procs s ! p) = Monitor \<Longrightarrow>
     run s (map (StdoutData p) chunks) = (s, concat (map (monitor_stdout s) chunks))"
  by (induction chunks) simp_all

lemma monitor_effects_explicit:
  "concat (map (monitor_stdout s) chunks) =
     map (\<lambda>chunk. case JSON_parse chunk of
                    Inl e \<Rightarrow> ParseDiagnostic e
                  | Inr msg \<Rightarrow>
                      if mainWindow s then Send msg
                      else ParseDiagnostic
                        (TypeError ''Cannot read properties of null (reading webContents)''))
       chunks"
  by (induction chunks) (simp_all add: monitor_stdout_def split: sum.splits)

text \<open>
  C2, as amended. In streaming mode the listener keeps nothing between chunks: for every
  sequence of stdout chunks it makes exactly one decode attempt per chunk, on the text of
  that chunk alone. The chunk's own decoding decides what the chunk yields: the
  diagnostic of its decode error, or the decoded value sent to the renderer (with no
  window, the diagnostic of the failed send). The state of the main process stays as it
  was.
\<close>

theorem monitor_decodes_per_chunk:
  "live s p \<Longrightarrow> pmode (procs s ! p) = Monitor \<Longrightarrow>
     run s (map (StdoutData p) chunks) =
       (s, map (\<lambda>chunk. case JSON_parse chunk of
                    Inl e \<Rightarrow> ParseDiagnostic e
                  | Inr msg \<Rightarrow>
                      if mainWindow s then Send msg
                      else ParseDiagnostic
                        (TypeError ''Cannot read properties of null (reading webContents)''))
             chunks)
     \<and> length (snd (run s (map (StdoutData p) chunks))) = length chunks"
  by (simp add: run_monitor_chunks monitor_effects_explicit)

lemma parse_array_1: "JSON_parse ''[1]'' = Inr (Arr [Num 1])"
  by code_simp

lemma parse_fragment: "JSON_parse ''[2'' = Inl (SyntaxError ''Unexpected token in JSON: [2'')"
  by code_simp

lemma window_after_start: "mainWindow (start_monitoring initial)"
  by (simp add: start_monitoring_def initial_def spawn_def)

theorem monitor_decodes_per_chunk_witness:
  "live (start_monitoring initial) 0
   \<and> pmode (procs (start_monitoring initial) ! 0) = Monitor
   \<and> run (start_monitoring initial) (map (StdoutData 0) [''[1]'', ''[2'']) =
       (start_monitoring initial,
        [Send (Arr [Num 1]), ParseDiagnostic (SyntaxError ''Unexpected token in JSON: [2'')])
   \<and> length (snd (run (start_monitoring initial) (map (StdoutData 0) [''[1]'', ''[2'']))) = 2"
  using monitor_decodes_per_chunk
    [OF live_after_start pmode_after_start, of "[''[1]'', ''[2'']"]
    live_after_start pmode_after_start
  by (simp add: parse_array_1 parse_fragment window_after_start)

text \<open>
  The claim as stated fails in both directions. A chunk with two complete lines gets one
  decode attempt, of the two lines together, which fails; a line that arrives in two
  chunks gets two attempts, one per fragment, and is never reassembled.
\<close>

theorem monitor_decodes_per_chunk_counterexample:
  \<open>snd (run (start_monitoring initial)
       (map (StdoutData 0) [''{"n":1}\<newline>{"n":2}\<newline>''])) =
     [ParseDiagnostic (SyntaxError ''Unexpected token in JSON: {"n":1}\<newline>{"n":2}\<newline>'')]
   \<and> line_buffered (start_monitoring initial) [''{"n":1}\<newline>{"n":2}\<newline>''] =
     [Send (Obj [(''n'', Num 1)]), Send (Obj [(''n'', Num 2)])]
   \<and> snd (run (start_monitoring initial) (map (StdoutData 0) [''{"n":'', ''1}\<newline>''])) =
     [ParseDiagnostic (SyntaxError ''Unexpected token in JSON: {"n":''),
      ParseDiagnostic (SyntaxError ''Unexpected token in JSON: 1}\<newline>'')]
   \<and> line_buffered (start_monitoring initial) [''{"n":'', ''1}\<newline>''] =
     [Send (Obj [(''n'', Num 1)])]\<close>
  by code_simp

lemma parse_malformed_line:
  "JSON_parse ''{a}\<newline>'' = Inl (SyntaxError ''Unexpected token in JSON: {a}\<newline>'')"
  by code_simp

text \<open>
  C3, as amended. In streaming mode a chunk that fails to decode produces one diagnostic
  and nothing else: the state is untouched and the events after it are handled as if it
  had not arrived. When the malformed line and the well-formed
  \<open>charger_status_update\<close> line arrive as two chunks, there is exactly one diagnostic
  and the renderer's list, empty before, holds exactly the record of the update.
\<close>

theorem malformed_chunk_is_skipped:
  "(live s p \<and> pmode (procs s ! p) = Monitor \<and> JSON_parse bad = Inl e \<longrightarrow>
      run s (StdoutData p bad # evs) = (fst (run s evs), ParseDiagnostic e # snd (run s evs)))
   \<and> diagnostics (snd (run (start_monitoring initial)
         [StdoutData 0 ''{a}\<newline>'', StdoutData 0 (example_update @ ''\<newline>'')])) =
       [SyntaxError ''Unexpected token in JSON: {a}\<newline>'']
   \<and> handle_all (sent (snd (run (start_monitoring initial)
         [StdoutData 0 ''{a}\<newline>'', StdoutData 0 (example_update @ ''\<newline>'')])))
         renderer_initial =
       Inr \<lparr>chargers = Arr [example_record], error = Null\<rparr>"
proof -
  have "live s p \<and> pmode (procs s ! p) = Monitor \<and> JSON_parse bad = Inl e \<longrightarrow>
      run s (StdoutData p bad # evs) = (fst (run s evs), ParseDiagnostic e # snd (run s evs))"
    by (simp add: monitor_stdout_def case_prod_beta)
  moreover have "diagnostics (snd (run (start_monitoring initial)
         [StdoutData 0 ''{a}\<newline>'', StdoutData 0 (example_update @ ''\<newline>'')])) =
       [SyntaxError ''Unexpected token in JSON: {a}\<newline>'']"
    by code_simp
  moreover have "handle_all (sent (snd (run (start_monitoring initial)
         [StdoutData 0 ''{a}\<newline>'', StdoutData 0 (example_update @ ''\<newline>'')])))
         renderer_initial =
       Inr \<lparr>chargers = Arr [example_record], error = Null\<rparr>"
    by code_simp
  ultimately show ?thesis by blast
qed

theorem malformed_chunk_is_skipped_witness:
  "live (start_monitoring initial) 0
   \<and> pmode (procs (start_monitoring initial) ! 0) = Monitor
   \<and> JSON_parse ''{a}\<newline>'' = Inl (SyntaxError ''Unexpected token in JSON: {a}\<newline>'')
   \<and> run (start_monitoring initial)
        [StdoutData 0 ''{a}\<newline>'', StdoutData 0 (example_update @ ''\<newline>'')] =
       (fst (run (start_monitoring initial) [StdoutData 0 (example_update @ ''\<newline>'')]),
        ParseDiagnostic (SyntaxError ''Unexpected token in JSON: {a}\<newline>'') #
          snd (run (start_monitoring initial) [StdoutData 0 (example_update @ ''\<newline>'')]))"
  using malformed_chunk_is_skipped
    [of "start_monitoring initial" 0 "''{a}\<newline>''"
        "SyntaxError ''Unexpected token in JSON: {a}\<newline>''"
        "[StdoutData 0 (example_update @ ''\<newline>'')]"]
    live_after_start pmode_after_start parse_malformed_line
  by blast

text \<open>
  The claim as stated fails when the two lines arrive in one chunk: the one decode
  attempt is on both lines together, so there is one diagnostic, nothing is sent, and
  the renderer's list stays empty. A demultiplexer that decoded line by line would
  give one diagnostic and one upsert there.
\<close>

theorem malformed_chunk_is_skipped_counterexample:
  "length (diagnostics (snd (run (start_monitoring initial)
      [StdoutData 0 (''{a}\<newline>'' @ example_update @ ''\<newline>'')]))) = 1
   \<and> sent (snd (run (start_monitoring initial)
      [StdoutData 0 (''{a}\<newline>'' @ example_update @ ''\<newline>'')])) = []
   \<and> handle_all (sent (snd (run (start_monitoring initial)
      [StdoutData 0 (''{a}\<newline>'' @ example_update @ ''\<newline>'')]))) renderer_initial =
       Inr \<lparr>chargers = Arr [], error = Null\<rparr>
   \<and> length (diagnostics (line_buffered (start_monitoring initial)
      [''{a}\<newline>'' @ example_update @ ''\<newline>''])) = 1
   \<and> handle_all (sent (line_buffered (start_monitoring initial)
      [''{a}\<newline>'' @ example_update @ ''\<newline>''])) renderer_initial =
       Inr \<lparr>chargers = Arr [example_record], error = Null\<rparr>"
  by code_simp

section \<open>The renderer's list of chargers\<close>

lemma record_ip_get: "record_ip c = Some k \<Longrightarrow> get_prop c ''ip'' = Inr (Str k)"
  by (auto simp: record_ip_def split: sum.splits jsval.splits)

lemma bridge_eventD:
  assumes "bridge_event msg = Some (k, d)"
  shows "get_prop msg ''event'' = Inr (Str ''charger_status_update'')"
    and "get_prop msg ''data'' = Inr d" and "record_ip d = Some k"
  using assms by (auto simp: bridge_event_def split: if_splits sum.splits option.splits)

lemma findIndex_ip_registry:
  assumes "bridge_event msg = Some (k, d)"
  shows "list_all (\<lambda>c. record_ip c \<noteq> None) cs \<Longrightarrow> findIndex_ip msg cs = Inr (index_of_ip k cs)"
proof (induction cs)
  case Nil
  then show ?case by simp
next
  case (Cons c cs)
  from Cons.prems obtain k' where k': "record_ip c = Some k'" by auto
  from Cons.prems Cons.IH have ih: "findIndex_ip msg cs = Inr (index_of_ip k cs)" by simp
  show ?case
    using k' ih record_ip_get [OF k'] bridge_eventD [OF assms]
      record_ip_get [OF bridge_eventD(3) [OF assms]]
    by auto
qed

lemma update_chargers_registry:
  assumes "bridge_event msg = Some (k, d)" and "list_all (\<lambda>c. record_ip c \<noteq> None) cs"
  shows "update_chargers msg (Arr cs) = Inr (Arr (upsert k d cs))"
  using findIndex_ip_registry [OF assms] bridge_eventD [OF assms(1)]
  by (simp add: update_chargers_def upsert_def split: option.splits)

lemma handleChargerData_registry:
  assumes "bridge_event msg = Some (k, d)" and "list_all (\<lambda>c. record_ip c \<noteq> None) cs"
    and "chargers st = Arr cs"
  shows "handleChargerData msg st = Inr (st\<lparr>chargers := Arr (upsert k d cs)\<rparr>)"
  using update_chargers_registry [OF assms(1,2)] bridge_eventD [OF assms(1)] assms(3)
  by (simp add: handleChargerData_def)

lemma index_of_ip_Some:
  "index_of_ip k cs = Some i \<Longrightarrow> i < length cs \<and> record_ip (cs ! i) = Some k"
proof (induction cs arbitrary: i)
  case Nil
  then show ?case by simp
next
  case (Cons c cs)
  then show ?case by (cases i) (auto split: if_splits)
qed

lemma index_of_ip_None: "index_of_ip k cs = None \<longleftrightarrow> Some k \<notin> set (map record_ip cs)"
  by (induction cs) auto

lemma index_of_ip_update:
  "index_of_ip k cs = Some i \<Longrightarrow> record_ip d = Some k \<Longrightarrow> index_of_ip k (cs[i := d]) = Some i"
proof (induction cs arbitrary: i)
  case Nil
  then show ?case by simp
next
  case (Cons c cs)
  then show ?case by (cases i) (auto split: if_splits)
qed

lemma index_of_ip_append:
  "index_of_ip k cs = None \<Longrightarrow> record_ip d = Some k \<Longrightarrow> index_of_ip k (cs @ [d]) = Some (length cs)"
  by (induction cs) (auto split: if_splits)

lemma map_record_ip_upsert:
  assumes "record_ip d = Some k"
  shows "map record_ip (upsert k d cs) =
     (if Some k \<in> set (map record_ip cs) then map record_ip cs else map record_ip cs @ [Some k])"
proof (cases "index_of_ip k cs")
  case None
  with assms show ?thesis
    using index_of_ip_None [of k cs] by (simp add: upsert_def)
next
  case (Some i)
  from index_of_ip_Some [OF Some] have i: "i < length cs" "record_ip (cs ! i) = Some k"
    by simp_all
  then have "(map record_ip cs)[i := Some k] = map record_ip cs"
    by (metis list_update_id nth_map)
  moreover from Some have "Some k \<in> set (map record_ip cs)"
    using index_of_ip_None [of k cs] by simp
  ultimately show ?thesis using Some assms
    by (simp add: upsert_def map_update)
qed

lemma registry_upsert:
  assumes "registry cs" and "record_ip d = Some k"
  shows "registry (upsert k d cs)"
  using assms map_record_ip_upsert [OF assms(2), of cs]
  by (auto simp: registry_def list_all_iff upsert_def split: option.splits dest: set_update_subset_insert [THEN subsetD])

lemma upsert_upsert:
  assumes "record_ip d1 = Some k" and "record_ip d2 = Some k"
  shows "upsert k d2 (upsert k d1 cs) = upsert k d2 cs"
proof (cases "index_of_ip k cs")
  case None
  with assms show ?thesis
    using index_of_ip_append [OF None assms(1)] by (simp add: upsert_def)
next
  case (Some i)
  with assms show ?thesis
    using index_of_ip_update [OF Some assms(1)] by (simp add: upsert_def)
qed

lemma filter_upsert:
  assumes "distinct (map record_ip cs)" and "record_ip d = Some k"
  shows "filter (\<lambda>c. record_ip c = Some k) (upsert k d cs) = [d]"
  using assms
proof (induction cs)
  case Nil
  then show ?case by (simp add: upsert_def)
next
  case (Cons c cs)
  show ?case
  proof (cases "record_ip c = Some k")
    case True
    with Cons.prems have "Some k \<notin> set (map record_ip cs)" by auto
    then have "filter (\<lambda>c. record_ip c = Some k) cs = []"
      by (force simp: filter_empty_conv)
    with True Cons.prems show ?thesis by (simp add: upsert_def)
  next
    case False
    from Cons have ih: "filter (\<lambda>c. record_ip c = Some k) (upsert k d cs) = [d]" by simp
    from False have "upsert k d (c # cs) = c # upsert k d cs"
      by (simp add: upsert_def split: option.splits)
    with False ih show ?thesis by simp
  qed
qed


lemma handle_two_events:
  assumes "registry cs" and "chargers st = Arr cs"
    and "bridge_event E1 = Some (k, d1)" and "bridge_event E2 = Some (k, d2)"
  shows "handle_all [E1, E2] st = Inr (st\<lparr>chargers := Arr (upsert k d2 cs)\<rparr>)"
proof -
  from assms(1) have wf: "list_all (\<lambda>c. record_ip c \<noteq> None) cs"
    by (simp add: registry_def)
  have r1: "registry (upsert k d1 cs)"
    using registry_upsert [OF assms(1) bridge_eventD(3) [OF assms(3)]] .
  then have wf1: "list_all (\<lambda>c. record_ip c \<noteq> None) (upsert k d1 cs)"
    by (simp add: registry_def)
  have s1: "handleChargerData E1 st = Inr (st\<lparr>chargers := Arr (upsert k d1 cs)\<rparr>)"
    using handleChargerData_registry [OF assms(3) wf assms(2)] .
  have s2: "handleChargerData E2 (st\<lparr>chargers := Arr (upsert k d1 cs)\<rparr>) =
      Inr (st\<lparr>chargers := Arr (upsert k d2 (upsert k d1 cs))\<rparr>)"
    using handleChargerData_registry [OF assms(4) wf1, of "st\<lparr>chargers := Arr (upsert k d1 cs)\<rparr>"]
    by simp
  show ?thesis
    using s1 s2 upsert_upsert [OF bridge_eventD(3) [OF assms(3)] bridge_eventD(3) [OF assms(4)], of cs]
    by simp
qed

lemma handle_all_registry:
  assumes "list_all (\<lambda>m. bridge_event m \<noteq> None) es"
  shows "registry cs \<Longrightarrow> chargers st = Arr cs \<Longrightarrow>
     \<exists>cs'. handle_all es st = Inr (st\<lparr>chargers := Arr cs'\<rparr>) \<and> registry cs'
       \<and> set (map record_ip cs') = set (map record_ip cs) \<union> set (map event_ip es)"
  using assms
proof (induction es arbitrary: cs st)
  case Nil
  then show ?case by (cases st) auto
next
  case (Cons m es)
  from Cons.prems(3) obtain k d where ev: "bridge_event m = Some (k, d)" by auto
  note ip = bridge_eventD(3) [OF ev]
  from Cons.prems(1) have wf: "list_all (\<lambda>c. record_ip c \<noteq> None) cs"
    by (simp add: registry_def)
  let ?st = "st\<lparr>chargers := Arr (upsert k d cs)\<rparr>"
  have step: "handleChargerData m st = Inr ?st"
    using handleChargerData_registry [OF ev wf Cons.prems(2)] .
  have reg: "registry (upsert k d cs)"
    using registry_upsert [OF Cons.prems(1) ip] .
  from Cons.prems(3) have rest: "list_all (\<lambda>m. bridge_event m \<noteq> None) es" by simp
  from Cons.IH [OF reg _ rest, of ?st]
  obtain cs' where cs': "handle_all es ?st = Inr (?st\<lparr>chargers := Arr cs'\<rparr>)"
    "registry cs'"
    "set (map record_ip cs') = set (map record_ip (upsert k d cs)) \<union> set (map event_ip es)"
    by auto
  have keys: "set (map record_ip (upsert k d cs)) = insert (Some k) (set (map record_ip cs))"
    using map_record_ip_upsert [OF ip, of cs] by auto
  have "event_ip m = Some k" using ev by (simp add: event_ip_def)
  with step cs' keys show ?case by auto
qed

lemma index_of_ip_bound: "index_of_ip k cs = Some i \<Longrightarrow> i < length cs"
  using index_of_ip_Some by blast

text \<open>
  C6. Let the renderer's list be a Registry (records with unique keys) and E1, E2 two
  update events whose records carry the same \<open>ip\<close>. After E1 then E2 the list holds
  exactly one record for that \<open>ip\<close>, the one of E2. It stands where the \<open>ip\<close> stood
  before, every other position unchanged; and if the \<open>ip\<close> was absent, E1 appended its
  record at the end and E2 replaced it there.
\<close>

theorem upsert_last_write_wins:
  assumes "registry cs" and "chargers st = Arr cs"
    and "bridge_event E1 = Some (k, d1)" and "bridge_event E2 = Some (k, d2)"
  shows "\<exists>cs'. handle_all [E1, E2] st = Inr (st\<lparr>chargers := Arr cs'\<rparr>)
    \<and> filter (\<lambda>c. record_ip c = Some k) cs' = [d2]
    \<and> (case index_of_ip k cs of
         Some i \<Rightarrow> cs' = cs[i := d2] \<and> index_of_ip k cs' = Some i
       | None \<Rightarrow> cs' = cs @ [d2] \<and> index_of_ip k cs' = Some (length cs)
           \<and> handleChargerData E1 st = Inr (st\<lparr>chargers := Arr (cs @ [d1])\<rparr>))"
proof -
  from assms(1) have wf: "list_all (\<lambda>c. record_ip c \<noteq> None) cs"
    and dist: "distinct (map record_ip cs)"
    by (simp_all add: registry_def)
  note ip1 = bridge_eventD(3) [OF assms(3)] and ip2 = bridge_eventD(3) [OF assms(4)]
  have a: "handle_all [E1, E2] st = Inr (st\<lparr>chargers := Arr (upsert k d2 cs)\<rparr>)"
    using handle_two_events [OF assms] .
  have b: "filter (\<lambda>c. record_ip c = Some k) (upsert k d2 cs) = [d2]"
    using filter_upsert [OF dist ip2] .
  have c: "(case index_of_ip k cs of
         Some i \<Rightarrow> upsert k d2 cs = cs[i := d2] \<and> index_of_ip k (upsert k d2 cs) = Some i
       | None \<Rightarrow> upsert k d2 cs = cs @ [d2] \<and> index_of_ip k (upsert k d2 cs) = Some (length cs)
           \<and> handleChargerData E1 st = Inr (st\<lparr>chargers := Arr (cs @ [d1])\<rparr>))"
  proof (cases "index_of_ip k cs")
    case None
    then show ?thesis
      using handleChargerData_registry [OF assms(3) wf assms(2)] index_of_ip_append [OF None ip2]
      by (simp add: upsert_def)
  next
    case (Some i)
    then show ?thesis
      using index_of_ip_update [OF Some ip2] by (simp add: upsert_def)
  qed
  from a b c show ?thesis by blast
qed

lemma registry_example: "registry [record_a, record_b]"
  by code_simp

lemma bridge_event_example:
  "bridge_event (update_of (Obj [(''ip'', Str ''10.0.0.6''), (''status'', Str s)])) =
     Some (''10.0.0.6'', Obj [(''ip'', Str ''10.0.0.6''), (''status'', Str s)])"
  by (simp add: bridge_event_def update_of_def record_ip_def own_property_def)

lemma index_example: "index_of_ip ''10.0.0.6'' [record_a, record_b] = Some 1"
  by code_simp

theorem upsert_last_write_wins_witness:
  "registry [record_a, record_b]
   \<and> handle_all
       [update_of (Obj [(''ip'', Str ''10.0.0.6''), (''status'', Str ''Charging'')]),
        update_of (Obj [(''ip'', Str ''10.0.0.6''), (''status'', Str ''Faulted'')])]
       \<lparr>chargers = Arr [record_a, record_b], error = Null\<rparr> =
     Inr \<lparr>chargers = Arr [record_a, Obj [(''ip'', Str ''10.0.0.6''), (''status'', Str ''Faulted'')]],
          error = Null\<rparr>"
proof -
  let ?st = "\<lparr>chargers = Arr [record_a, record_b], error = Null\<rparr>"
  have c: "chargers ?st = Arr [record_a, record_b]" by simp
  from upsert_last_write_wins
    [OF registry_example c bridge_event_example [of "''Charging''"]
        bridge_event_example [of "''Faulted''"]]
  obtain cs' where
    h: "handle_all
       [update_of (Obj [(''ip'', Str ''10.0.0.6''), (''status'', Str ''Charging'')]),
        update_of (Obj [(''ip'', Str ''10.0.0.6''), (''status'', Str ''Faulted'')])] ?st =
      Inr (?st\<lparr>chargers := Arr cs'\<rparr>)"
    and p: "(case index_of_ip ''10.0.0.6'' [record_a, record_b] of
         Some i \<Rightarrow>
           cs' = [record_a, record_b]
                   [i := Obj [(''ip'', Str ''10.0.0.6''), (''status'', Str ''Faulted'')]]
           \<and> index_of_ip ''10.0.0.6'' cs' = Some i
       | None \<Rightarrow>
           cs' = [record_a, record_b] @
                   [Obj [(''ip'', Str ''10.0.0.6''), (''status'', Str ''Faulted'')]]
           \<and> index_of_ip ''10.0.0.6'' cs' = Some (length [record_a, record_b])
           \<and> handleChargerData
               (update_of (Obj [(''ip'', Str ''10.0.0.6''), (''status'', Str ''Charging'')]))
               ?st =
             Inr (?st\<lparr>chargers := Arr ([record_a, record_b] @
                   [Obj [(''ip'', Str ''10.0.0.6''), (''status'', Str ''Charging'')]])\<rparr>))"
    by blast
  from p have "cs' = [record_a, Obj [(''ip'', Str ''10.0.0.6''), (''status'', Str ''Faulted'')]]"
    unfolding index_example by simp
  with h registry_example show ?thesis by simp
qed

text \<open>
  C7. For every finite sequence of update events, each carrying a record with a string
  \<open>ip\<close>, applied in order to the empty list, no event throws and the length of the
  resulting list is the number of distinct \<open>ip\<close> values in the sequence.
\<close>

theorem registry_key_uniqueness:
  assumes "list_all (\<lambda>m. bridge_event m \<noteq> None) es"
  shows "\<exists>cs. handle_all es renderer_initial = Inr (renderer_initial\<lparr>chargers := Arr cs\<rparr>)
     \<and> length cs = card (set (map event_ip es))"
proof -
  have "registry []" by (simp add: registry_def)
  from handle_all_registry [OF assms this, of renderer_initial]
  obtain cs where cs:
    "handle_all es renderer_initial = Inr (renderer_initial\<lparr>chargers := Arr cs\<rparr>)"
    "registry cs" "set (map record_ip cs) = set (map event_ip es)"
    by (auto simp: renderer_initial_def)
  from cs(2) have "length cs = card (set (map record_ip cs))"
    by (metis distinct_card length_map registry_def)
  with cs show ?thesis by auto
qed

lemma events_example:
  "list_all (\<lambda>m. bridge_event m \<noteq> None) [update_of record_a, update_of record_b, update_of record_a]"
  by code_simp

lemma card_example:
  "card (set (map event_ip [update_of record_a, update_of record_b, update_of record_a])) = 2"
  by code_simp

theorem registry_key_uniqueness_witness:
  "list_all (\<lambda>m. bridge_event m \<noteq> None)
     [update_of record_a, update_of record_b, update_of record_a]
   \<and> (\<exists>cs. handle_all [update_of record_a, update_of record_b, update_of record_a]
          renderer_initial = Inr (renderer_initial\<lparr>chargers := Arr cs\<rparr>)
        \<and> length cs = 2)"
  using registry_key_uniqueness [OF events_example] events_example card_example
  by simp

section \<open>Status icons of the charger cards\<close>

lemma icon_for_fallback:
  "trim (toLowerCase t) \<notin> set (map fst statusIcons) \<Longrightarrow>
   trim (toLowerCase t) \<notin> set Object_prototype \<Longrightarrow>
     icon_for t = statusIcons_get ''unknown''"
proof -
  assume a: "trim (toLowerCase t) \<notin> set (map fst statusIcons)"
    and b: "trim (toLowerCase t) \<notin> set Object_prototype"
  from a have "map_of statusIcons (trim (toLowerCase t)) = None"
    by (simp add: map_of_eq_None_iff)
  with b show ?thesis
    by (simp add: icon_for_def statusIcons_get_def [of "trim (toLowerCase t)"])
qed

text \<open>
  C9. The status is lower-cased and trimmed before the lookup: \<open>"Charging"\<close> finds the
  \<open>charging\<close> entry and \<open>"Faulted"\<close>, which has no entry, falls back to \<open>unknown\<close>.
  A status that names a member of \<open>Object.prototype\<close> does not fall back: for
  \<open>"constructor"\<close> the lookup yields the inherited member, which is truthy and is no
  entry of the table.
\<close>

theorem status_lookup_inherited:
  "icon_for ''Charging'' =
     Own ''charging'' \<lparr>icon = BoltIcon, color = ''#3b82f6'', variant = ''none''\<rparr>
   \<and> icon_for ''Faulted'' =
     Own ''unknown'' \<lparr>icon = ExclamationCircleIcon, color = ''#f59e0b'', variant = ''none''\<rparr>
   \<and> icon_for ''constructor'' = Inherited ''constructor''
   \<and> icon_for '' Constructor '' = Inherited ''constructor''
   \<and> icon_for ''__proto__'' = Inherited ''__proto__''
   \<and> iconInfo (Obj [(''ip'', Str ''1.2.3.4''), (''status'', Str ''constructor'')]) =
     Inr (Inherited ''constructor'')"
  by code_simp

end
